theory Spec2Isabelle
  imports Complex_Main "HOL-Library.Word"
begin

section \<open>Numbers of the program\<close>

text \<open>
  Prices, quantities and capital are C++ \<^verbatim>\<open>double\<close>s. The detector uses NaN as its
  "not yet seeded" marker and compares against it, so the special values are part of the
  model: a \<open>double\<close> is a real number, one of the two infinities, or NaN. Arithmetic and
  comparisons on the special values follow IEEE 754: NaN propagates through arithmetic and
  every ordered comparison with NaN is false. The sign of zero is not modelled; zero divides
  like +0.

  Arithmetic on finite values comes in two layers. The operations of this section
  (\<open>dadd\<close>, \<open>dsub\<close>, \<open>dmul\<close>, \<open>ddiv\<close>) are exact: no rounding and no overflow. They carry
  the properties that rest on signs, orderings, timestamps and control flow. The section
  on binary64 arithmetic further down adds rounding to nearest and overflow, and repeats
  the functions whose result can turn on the last bit of a quotient (names ending in
  \<open>_b64\<close>); the properties about a value meeting a bound exactly are stated there.
\<close>

datatype double = Fin real | PInf | NInf | NaN

fun isnan :: "double \<Rightarrow> bool" where
  "isnan NaN = True"
| "isnan _ = False"

fun isfinite :: "double \<Rightarrow> bool" where
  "isfinite (Fin _) = True"
| "isfinite _ = False"

fun dneg :: "double \<Rightarrow> double" where
  "dneg (Fin a) = Fin (- a)"
| "dneg PInf = NInf"
| "dneg NInf = PInf"
| "dneg NaN = NaN"

fun dadd :: "double \<Rightarrow> double \<Rightarrow> double" where
  "dadd (Fin a) (Fin b) = Fin (a + b)"
| "dadd (Fin a) PInf = PInf"
| "dadd (Fin a) NInf = NInf"
| "dadd PInf (Fin b) = PInf"
| "dadd PInf PInf = PInf"
| "dadd PInf NInf = NaN"
| "dadd NInf (Fin b) = NInf"
| "dadd NInf NInf = NInf"
| "dadd NInf PInf = NaN"
| "dadd NaN _ = NaN"
| "dadd _ NaN = NaN"

definition dsub :: "double \<Rightarrow> double \<Rightarrow> double" where
  "dsub a b = dadd a (dneg b)"

fun dmul :: "double \<Rightarrow> double \<Rightarrow> double" where
  "dmul (Fin a) (Fin b) = Fin (a * b)"
| "dmul (Fin a) PInf = (if 0 < a then PInf else if a < 0 then NInf else NaN)"
| "dmul (Fin a) NInf = (if 0 < a then NInf else if a < 0 then PInf else NaN)"
| "dmul PInf (Fin b) = (if 0 < b then PInf else if b < 0 then NInf else NaN)"
| "dmul NInf (Fin b) = (if 0 < b then NInf else if b < 0 then PInf else NaN)"
| "dmul PInf PInf = PInf"
| "dmul PInf NInf = NInf"
| "dmul NInf PInf = NInf"
| "dmul NInf NInf = PInf"
| "dmul NaN _ = NaN"
| "dmul _ NaN = NaN"

fun ddiv :: "double \<Rightarrow> double \<Rightarrow> double" where
  "ddiv (Fin a) (Fin b) =
     (if b \<noteq> 0 then Fin (a / b)
      else if 0 < a then PInf else if a < 0 then NInf else NaN)"
| "ddiv (Fin a) PInf = Fin 0"
| "ddiv (Fin a) NInf = Fin 0"
| "ddiv PInf (Fin b) = (if 0 \<le> b then PInf else NInf)"
| "ddiv NInf (Fin b) = (if 0 \<le> b then NInf else PInf)"
| "ddiv PInf PInf = NaN"
| "ddiv PInf NInf = NaN"
| "ddiv NInf PInf = NaN"
| "ddiv NInf NInf = NaN"
| "ddiv NaN _ = NaN"
| "ddiv _ NaN = NaN"

fun dabs :: "double \<Rightarrow> double" where
  "dabs (Fin a) = Fin \<bar>a\<bar>"
| "dabs PInf = PInf"
| "dabs NInf = PInf"
| "dabs NaN = NaN"

text \<open>\<open>dless a b\<close> is the C++ \<^verbatim>\<open>a < b\<close>, \<open>dle a b\<close> is \<^verbatim>\<open>a <= b\<close>, \<open>deq a b\<close> is \<^verbatim>\<open>a == b\<close>.\<close>

fun dless :: "double \<Rightarrow> double \<Rightarrow> bool" where
  "dless (Fin a) (Fin b) = (a < b)"
| "dless (Fin a) PInf = True"
| "dless NInf (Fin b) = True"
| "dless NInf PInf = True"
| "dless _ _ = False"

fun dle :: "double \<Rightarrow> double \<Rightarrow> bool" where
  "dle (Fin a) (Fin b) = (a \<le> b)"
| "dle (Fin a) PInf = True"
| "dle NInf (Fin b) = True"
| "dle NInf PInf = True"
| "dle PInf PInf = True"
| "dle NInf NInf = True"
| "dle _ _ = False"

fun deq :: "double \<Rightarrow> double \<Rightarrow> bool" where
  "deq NaN _ = False"
| "deq _ NaN = False"
| "deq a b = (a = b)"

text \<open>
  \<^verbatim>\<open>std::min(a, b)\<close> is \<^verbatim>\<open>(b < a) ? b : a\<close> and \<^verbatim>\<open>std::max(a, b)\<close> is
  \<^verbatim>\<open>(a < b) ? b : a\<close>; with a NaN argument both return the first one.
\<close>

definition std_min :: "double \<Rightarrow> double \<Rightarrow> double" where
  "std_min a b = (if dless b a then b else a)"

definition std_max :: "double \<Rightarrow> double \<Rightarrow> double" where
  "std_max a b = (if dless a b then b else a)"

text \<open>
  Timestamps and durations are \<^verbatim>\<open>std::int64_t\<close>: 64-bit words read as two's complement
  (\<open>sint\<close>); subtraction wraps around. \<open>of_int64\<close> is \<^verbatim>\<open>static_cast<double>\<close>.
\<close>

type_synonym int64 = "64 word"

definition of_int64 :: "int64 \<Rightarrow> double" where
  "of_int64 n = Fin (real_of_int (sint n))"


section \<open>The directional-change detector (DCIndicator)\<close>

record MarketDataPoint =
  timestamp :: int64
  price :: double
  volume :: double

datatype DCEventType = NONE | UPTURN | DOWNTURN

record DCEvent =
  ev_type :: DCEventType
  ev_timestamp :: int64
  ev_price :: double
  tmv_ext :: double
  duration :: int64
  time_adjusted_return :: double

text \<open>The default-constructed event \<^verbatim>\<open>DCEvent()\<close>.\<close>

definition DCEvent_default :: DCEvent where
  "DCEvent_default =
     \<lparr>ev_type = NONE, ev_timestamp = 0, ev_price = Fin 0, tmv_ext = Fin 0,
      duration = 0, time_adjusted_return = Fin 0\<rparr>"

text \<open>
  The detector's fields. \<open>current_trend\<close> is 1 for up, -1 for down, 0 for unknown;
  \<open>last_dc_price\<close> and \<open>last_dc_timestamp\<close> hold the extreme closed by the previous event.
\<close>

record DCIndicator =
  theta :: double
  current_trend :: int
  extreme_price :: double
  extreme_timestamp :: int64
  last_dc_price :: double
  last_dc_timestamp :: int64
  last_dc_event :: DCEvent

text \<open>The constructor \<^verbatim>\<open>DCIndicator(theta)\<close> and \<^verbatim>\<open>reset()\<close>.\<close>

definition DCIndicator_new :: "double \<Rightarrow> DCIndicator" where
  "DCIndicator_new th =
     \<lparr>theta = th, current_trend = 0, extreme_price = NaN, extreme_timestamp = 0,
      last_dc_price = NaN, last_dc_timestamp = 0, last_dc_event = DCEvent_default\<rparr>"

definition reset :: "DCIndicator \<Rightarrow> DCIndicator" where
  "reset s =
     s\<lparr>current_trend := 0, extreme_price := NaN, extreme_timestamp := 0,
       last_dc_price := NaN, last_dc_timestamp := 0, last_dc_event := DCEvent_default\<rparr>"

text \<open>
  The detector's arithmetic in the exact layer. \<open>calculateTMV_b64\<close>,
  \<open>calculateTimeAdjustedReturn_b64\<close>, \<open>isUpwardDC_b64\<close> and \<open>isDownwardDC_b64\<close> in the section
  on binary64 arithmetic are the same functions with each operation rounded.
\<close>

definition calculateTMV :: "double \<Rightarrow> double \<Rightarrow> double \<Rightarrow> double" where
  "calculateTMV th current_price previous_extreme =
     (if isnan previous_extreme \<or> deq previous_extreme (Fin 0) then Fin 0
      else ddiv (dabs (dsub current_price previous_extreme)) (dmul previous_extreme th))"

definition calculateDuration :: "int64 \<Rightarrow> int64 \<Rightarrow> int64" where
  "calculateDuration current_time previous_time = current_time - previous_time"

definition calculateTimeAdjustedReturn :: "double \<Rightarrow> double \<Rightarrow> int64 \<Rightarrow> double" where
  "calculateTimeAdjustedReturn th tmv dur =
     (if sint dur \<le> 0 then Fin 0
      else let duration_seconds = ddiv (of_int64 dur) (Fin 1000000000)
           in dmul (ddiv tmv duration_seconds) th)"

definition isUpwardDC :: "double \<Rightarrow> double \<Rightarrow> double \<Rightarrow> bool" where
  "isUpwardDC th current_price extreme =
     (if isnan extreme then False
      else dle th (ddiv (dsub current_price extreme) extreme))"

definition isDownwardDC :: "double \<Rightarrow> double \<Rightarrow> double \<Rightarrow> bool" where
  "isDownwardDC th current_price extreme =
     (if isnan extreme then False
      else dle th (ddiv (dsub extreme current_price) extreme))"

text \<open>
  The first half of \<^verbatim>\<open>processDataPoint\<close> after seeding: the running extreme follows a new
  high while the trend is up or unknown, a new low while it is down.
\<close>

definition update_extreme :: "DCIndicator \<Rightarrow> MarketDataPoint \<Rightarrow> DCIndicator" where
  "update_extreme s dp =
     (if 0 \<le> current_trend s then
        (if dless (extreme_price s) (price dp)
         then s\<lparr>extreme_price := price dp, extreme_timestamp := timestamp dp\<rparr> else s)
      else
        (if dless (price dp) (extreme_price s)
         then s\<lparr>extreme_price := price dp, extreme_timestamp := timestamp dp\<rparr> else s))"

text \<open>\<open>dc_detected\<close> is the flag of the same name, tested on the updated extreme.\<close>

definition dc_detected :: "DCIndicator \<Rightarrow> MarketDataPoint \<Rightarrow> bool" where
  "dc_detected s dp =
     (if 0 \<le> current_trend s
      then isDownwardDC (theta s) (price dp) (extreme_price (update_extreme s dp))
      else isUpwardDC (theta s) (price dp) (extreme_price (update_extreme s dp)))"

text \<open>The event built in the \<^verbatim>\<open>if (dc_detected)\<close> block.\<close>

definition make_event :: "DCIndicator \<Rightarrow> MarketDataPoint \<Rightarrow> DCEvent" where
  "make_event s dp =
     (let s1 = update_extreme s dp;
          tmv = calculateTMV (theta s) (price dp) (extreme_price s1);
          dur = calculateDuration (extreme_timestamp s1) (last_dc_timestamp s1)
      in \<lparr>ev_type = (if 0 \<le> current_trend s then DOWNTURN else UPTURN),
          ev_timestamp = timestamp dp, ev_price = price dp, tmv_ext = tmv,
          duration = dur,
          time_adjusted_return = calculateTimeAdjustedReturn (theta s) tmv dur\<rparr>)"

text \<open>
  \<^verbatim>\<open>processDataPoint\<close>: the returned event and the detector afterwards. A detector whose
  extreme is NaN takes the tick as its seed and returns the default event.
\<close>

definition processDataPoint :: "DCIndicator \<Rightarrow> MarketDataPoint \<Rightarrow> DCEvent \<times> DCIndicator" where
  "processDataPoint s dp =
     (if isnan (extreme_price s) then
        (DCEvent_default,
         s\<lparr>extreme_price := price dp, extreme_timestamp := timestamp dp,
           last_dc_price := price dp, last_dc_timestamp := timestamp dp\<rparr>)
      else if dc_detected s dp then
        (let s1 = update_extreme s dp; event = make_event s dp
         in (event,
             s1\<lparr>current_trend := (if 0 \<le> current_trend s then - 1 else 1),
                last_dc_price := extreme_price s1,
                last_dc_timestamp := extreme_timestamp s1,
                extreme_price := price dp,
                extreme_timestamp := timestamp dp,
                last_dc_event := event\<rparr>))
      else (DCEvent_default, update_extreme s dp))"

text \<open>
  Feeding a tick sequence: \<open>steps\<close> lists, for every tick, the detector before the tick,
  the event returned for it and the detector after it; \<open>final_state\<close> is the detector
  after the last tick. The events a run emits are the returned events whose type is not
  \<open>NONE\<close> (only those are published).
\<close>

fun steps :: "DCIndicator \<Rightarrow> MarketDataPoint list \<Rightarrow> (DCIndicator \<times> DCEvent \<times> DCIndicator) list" where
  "steps s [] = []"
| "steps s (dp # dps) =
     (s, fst (processDataPoint s dp), snd (processDataPoint s dp))
       # steps (snd (processDataPoint s dp)) dps"

fun final_state :: "DCIndicator \<Rightarrow> MarketDataPoint list \<Rightarrow> DCIndicator" where
  "final_state s [] = s"
| "final_state s (dp # dps) = final_state (snd (processDataPoint s dp)) dps"

definition returned_events :: "DCIndicator \<Rightarrow> MarketDataPoint list \<Rightarrow> DCEvent list" where
  "returned_events s dps = map (\<lambda>st. fst (snd st)) (steps s dps)"

definition emitted_events :: "DCIndicator \<Rightarrow> MarketDataPoint list \<Rightarrow> DCEvent list" where
  "emitted_events s dps = filter (\<lambda>e. ev_type e \<noteq> NONE) (returned_events s dps)"

text \<open>A tick at time \<open>ts\<close> with price \<open>p\<close> (volume 0, the constructor's default).\<close>

definition tick :: "int64 \<Rightarrow> real \<Rightarrow> MarketDataPoint" where
  "tick ts p = \<lparr>timestamp = ts, price = Fin p, volume = Fin 0\<rparr>"

text \<open>Scenario A of the specification: prices 100, 101, 102, 103, 101.5 at 1 ms spacing.\<close>

definition scenario_A :: "MarketDataPoint list" where
  "scenario_A =
     [tick 0 100, tick 1000000 101, tick 2000000 102, tick 3000000 103,
      tick 4000000 (203 / 2)]"


definition scenario_D :: "MarketDataPoint list" where
  "scenario_D =
     [tick 0 100, tick 1000000 102, tick 2000000 (504 / 5), tick 3000000 (205 / 2),
      tick 4000000 (506 / 5)]"

definition scenario_drop :: "MarketDataPoint list" where
  "scenario_drop = [tick 0 100, tick 1000000 98]"

text \<open>A detector with threshold 1 % that has seen one tick, at time 0 and price 100.\<close>

definition seeded_at_100 :: DCIndicator where
  "seeded_at_100 = snd (processDataPoint (DCIndicator_new (Fin (1 / 100))) (tick 0 100))"

text \<open>The event type a detector in state \<open>s\<close> can emit next.\<close>

definition next_event_type :: "DCIndicator \<Rightarrow> DCEventType" where
  "next_event_type s = (if 0 \<le> current_trend s then DOWNTURN else UPTURN)"

text \<open>
  An invariant of the detector used below: once the extreme is set, the previous-extreme
  timestamp is non-negative and not after the extreme's timestamp, which is not after \<open>b\<close>.
\<close>

definition timestamps_ordered :: "int \<Rightarrow> DCIndicator \<Rightarrow> bool" where
  "timestamps_ordered b s \<longleftrightarrow>
     isnan (extreme_price s)
     \<or> (0 \<le> sint (last_dc_timestamp s)
        \<and> sint (last_dc_timestamp s) \<le> sint (extreme_timestamp s)
        \<and> sint (extreme_timestamp s) \<le> b)"


section \<open>The market-data processor and the strategy engine\<close>

datatype SignalType = SIG_NONE | BUY | SELL | HOLD

datatype MarketState = UNKNOWN | LOW_VOLATILITY | HIGH_VOLATILITY




text \<open>
  The strategy engine's parameters and regime state, and the order it builds. The order's
  timestamp and latency are clock readings and are left out.
\<close>

record StrategyEngine =
  hmm_enabled :: bool
  leverage_factor :: double
  current_market_state :: MarketState

text \<open>The constructor's values: no regime detection, leverage 1.\<close>

definition StrategyEngine_new :: StrategyEngine where
  "StrategyEngine_new =
     \<lparr>hmm_enabled = False, leverage_factor = Fin 1, current_market_state = UNKNOWN\<rparr>"



definition getVolatilityAdjustedLeverage :: "StrategyEngine \<Rightarrow> double" where
  "getVolatilityAdjustedLeverage se =
     (case current_market_state se of
        LOW_VOLATILITY \<Rightarrow> Fin (3 / 2)
      | HIGH_VOLATILITY \<Rightarrow> Fin (1 / 2)
      | UNKNOWN \<Rightarrow> Fin 1)"







section \<open>The execution engine's performance accumulator\<close>

datatype ExecutionStatus = PENDING | FILLED | PARTIALLY_FILLED | REJECTED | CANCELLED



















section \<open>Binary64 arithmetic\<close>

text \<open>
  A C++ \<^verbatim>\<open>double\<close> operation on finite values returns the exact result rounded to the
  nearest binary64 value, ties to the even significand (IEEE 754, the default rounding
  mode). \<open>rne\<close> rounds a real to the nearest integer, ties to even. \<open>quantum a\<close> is the
  exponent of the spacing of the binary64 values around a positive \<open>a\<close>: 52 below the
  exponent of \<open>a\<close>, and never below \<open>-1074\<close>, the spacing of the subnormal values.
  \<open>round64 x\<close> is the multiple of that spacing nearest to \<open>x\<close>, or an infinity when the
  rounded magnitude reaches \<open>2^1024\<close>. \<open>is_binary64 x\<close> says that \<open>x\<close> is itself a binary64
  value: a significand below \<open>2^53\<close> times a power of two in the format's range.
\<close>

definition rne :: "real \<Rightarrow> int" where
  "rne q = (let f = \<lfloor>q\<rfloor>; r = q - of_int f
            in if r < 1 / 2 then f else if 1 / 2 < r then f + 1
               else if even f then f else f + 1)"

definition quantum :: "real \<Rightarrow> int" where
  "quantum a = max (\<lfloor>log 2 a\<rfloor> - 52) (- 1074)"

definition round64 :: "real \<Rightarrow> double" where
  "round64 x =
     (if x = 0 then Fin 0
      else let ex = quantum \<bar>x\<bar>;
               y = of_int (rne (\<bar>x\<bar> / 2 powi ex)) * 2 powi ex
           in if 2 ^ 1024 \<le> y then (if 0 < x then PInf else NInf)
              else Fin (sgn x * y))"

definition is_binary64 :: "real \<Rightarrow> bool" where
  "is_binary64 x \<longleftrightarrow>
     (\<exists>m e. x = of_int m * 2 powi e \<and> \<bar>m\<bar> < 2 ^ 53 \<and> - 1074 \<le> e \<and> e \<le> 971)"

text \<open>
  The rounded operations \<^verbatim>\<open>+\<close>, \<^verbatim>\<open>-\<close>, \<^verbatim>\<open>*\<close> and \<^verbatim>\<open>/\<close>: on two finite operands the exact
  result is rounded; with a special operand, or a finite one divided by zero, the result
  is the one of the exact layer, which follows IEEE 754 there.
\<close>

fun fadd :: "double \<Rightarrow> double \<Rightarrow> double" where
  "fadd (Fin a) (Fin b) = round64 (a + b)"
| "fadd a b = dadd a b"

definition fsub :: "double \<Rightarrow> double \<Rightarrow> double" where
  "fsub a b = fadd a (dneg b)"

fun fmul :: "double \<Rightarrow> double \<Rightarrow> double" where
  "fmul (Fin a) (Fin b) = round64 (a * b)"
| "fmul a b = dmul a b"

fun fdiv :: "double \<Rightarrow> double \<Rightarrow> double" where
  "fdiv (Fin a) (Fin b) = (if b \<noteq> 0 then round64 (a / b) else ddiv (Fin a) (Fin b))"
| "fdiv a b = ddiv a b"

text \<open>\<^verbatim>\<open>static_cast<double>\<close> of a 64-bit integer rounds as well.\<close>

definition of_int64_b64 :: "int64 \<Rightarrow> double" where
  "of_int64_b64 n = round64 (real_of_int (sint n))"

text \<open>
  The detector's arithmetic with every operation rounded. \<open>update_extreme\<close> and
  \<open>calculateDuration\<close> do no floating-point arithmetic and are the ones defined above.
\<close>

definition calculateTMV_b64 :: "double \<Rightarrow> double \<Rightarrow> double \<Rightarrow> double" where
  "calculateTMV_b64 th current_price previous_extreme =
     (if isnan previous_extreme \<or> deq previous_extreme (Fin 0) then Fin 0
      else fdiv (dabs (fsub current_price previous_extreme)) (fmul previous_extreme th))"

definition calculateTimeAdjustedReturn_b64 :: "double \<Rightarrow> double \<Rightarrow> int64 \<Rightarrow> double" where
  "calculateTimeAdjustedReturn_b64 th tmv dur =
     (if sint dur \<le> 0 then Fin 0
      else let duration_seconds = fdiv (of_int64_b64 dur) (Fin 1000000000)
           in fmul (fdiv tmv duration_seconds) th)"

definition isUpwardDC_b64 :: "double \<Rightarrow> double \<Rightarrow> double \<Rightarrow> bool" where
  "isUpwardDC_b64 th current_price extreme =
     (if isnan extreme then False
      else dle th (fdiv (fsub current_price extreme) extreme))"

definition isDownwardDC_b64 :: "double \<Rightarrow> double \<Rightarrow> double \<Rightarrow> bool" where
  "isDownwardDC_b64 th current_price extreme =
     (if isnan extreme then False
      else dle th (fdiv (fsub extreme current_price) extreme))"

definition dc_detected_b64 :: "DCIndicator \<Rightarrow> MarketDataPoint \<Rightarrow> bool" where
  "dc_detected_b64 s dp =
     (if 0 \<le> current_trend s
      then isDownwardDC_b64 (theta s) (price dp) (extreme_price (update_extreme s dp))
      else isUpwardDC_b64 (theta s) (price dp) (extreme_price (update_extreme s dp)))"

definition make_event_b64 :: "DCIndicator \<Rightarrow> MarketDataPoint \<Rightarrow> DCEvent" where
  "make_event_b64 s dp =
     (let s1 = update_extreme s dp;
          tmv = calculateTMV_b64 (theta s) (price dp) (extreme_price s1);
          dur = calculateDuration (extreme_timestamp s1) (last_dc_timestamp s1)
      in \<lparr>ev_type = (if 0 \<le> current_trend s then DOWNTURN else UPTURN),
          ev_timestamp = timestamp dp, ev_price = price dp, tmv_ext = tmv,
          duration = dur,
          time_adjusted_return = calculateTimeAdjustedReturn_b64 (theta s) tmv dur\<rparr>)"

definition processDataPoint_b64 :: "DCIndicator \<Rightarrow> MarketDataPoint \<Rightarrow> DCEvent \<times> DCIndicator" where
  "processDataPoint_b64 s dp =
     (if isnan (extreme_price s) then
        (DCEvent_default,
         s\<lparr>extreme_price := price dp, extreme_timestamp := timestamp dp,
           last_dc_price := price dp, last_dc_timestamp := timestamp dp\<rparr>)
      else if dc_detected_b64 s dp then
        (let s1 = update_extreme s dp; event = make_event_b64 s dp
         in (event,
             s1\<lparr>current_trend := (if 0 \<le> current_trend s then - 1 else 1),
                last_dc_price := extreme_price s1,
                last_dc_timestamp := extreme_timestamp s1,
                extreme_price := price dp,
                extreme_timestamp := timestamp dp,
                last_dc_event := event\<rparr>))
      else (DCEvent_default, update_extreme s dp))"



text \<open>\<^verbatim>\<open>StrategyEngine::calculateOrderQuantity\<close> with every operation rounded.\<close>

definition calculateOrderQuantity_b64 :: "StrategyEngine \<Rightarrow> SignalType \<Rightarrow> double \<Rightarrow> double" where
  "calculateOrderQuantity_b64 se sig price_arg =
     (let base_quantity = Fin 100;
          quantity0 = fmul base_quantity (leverage_factor se);
          quantity1 = (if hmm_enabled se
                       then fmul quantity0 (getVolatilityAdjustedLeverage se)
                       else quantity0);
          quantity2 = (if dless (Fin 0) price_arg
                       then std_min quantity1 (fdiv (Fin 10000) price_arg)
                       else quantity1)
      in std_max (Fin 1) quantity2)"

text \<open>
  Binary64 values used as inputs below, each written as significand times power of two.
  \<open>c8_extreme\<close> is the double 177.48160666138705 and \<open>c8_price\<close> a quarter of it;
  \<open>c8_state\<close> is a detector with threshold 0.75 seeded at \<open>c8_extreme\<close>.
  \<open>c4_price\<close> is the double nearest 129.76 and \<open>c4_quantity\<close> the double
  77.06535141800248. \<open>c5_theta\<close> is the double nearest 0.3, \<open>c5_price\<close> the double nearest
  106.4, \<open>c5_diff\<close> and \<open>c5_den\<close> are the doubles the detector computes for \<open>152 - c5_price\<close>
  and \<open>152 * c5_theta\<close>, and \<open>c5_tmv\<close> is \<open>1 - 2^-53\<close>, the double 0.9999999999999999.
\<close>

definition c8_extreme :: real where "c8_extreme = 6244578887697966 * 2 powi (- 45)"

definition c8_price :: real where "c8_price = 6244578887697966 * 2 powi (- 47)"

definition c8_state :: DCIndicator where
  "c8_state = snd (processDataPoint_b64 (DCIndicator_new (Fin (3 / 4))) (tick 0 c8_extreme))"

definition c4_price :: real where "c4_price = 4565524122246840 * 2 powi (- 45)"

definition c4_quantity :: real where "c4_quantity = 5422991998895192 * 2 powi (- 46)"







text \<open>
  With threshold 0.25: a detector seeded at 128, and the same after a downturn confirmed
  at 96 (trend down, running extreme 96).
\<close>

definition up_at_128 :: DCIndicator where
  "up_at_128 = snd (processDataPoint_b64 (DCIndicator_new (Fin (1 / 4))) (tick 0 128))"

definition down_at_96 :: DCIndicator where
  "down_at_96 = snd (processDataPoint_b64 up_at_128 (tick 1000000 96))"




section \<open>Evaluation on the scenarios\<close>

lemmas eval_defs =
  emitted_events_def returned_events_def tick_def DCIndicator_new_def processDataPoint_def
  dc_detected_def update_extreme_def make_event_def isDownwardDC_def isUpwardDC_def
  calculateTMV_def calculateDuration_def calculateTimeAdjustedReturn_def of_int64_def
  dsub_def DCEvent_default_def Let_def

lemma scenario_A_events:
  "emitted_events (DCIndicator_new (Fin (1 / 100))) scenario_A =
     [\<lparr>ev_type = DOWNTURN, ev_timestamp = 4000000, ev_price = Fin (203 / 2),
       tmv_ext = Fin (150 / 103), duration = 3000000,
       time_adjusted_return = Fin (500 / 103)\<rparr>]"
  by (simp add: scenario_A_def eval_defs)



lemma scenario_D_types:
  "map ev_type (emitted_events (DCIndicator_new (Fin (1 / 100))) scenario_D)
     = [DOWNTURN, UPTURN, DOWNTURN]"
  by (simp add: scenario_D_def eval_defs)

lemma scenario_D_steps:
  "ev_type (fst (snd (steps (DCIndicator_new (Fin (1 / 100))) scenario_D ! 2))) = DOWNTURN"
  "ev_type (fst (snd (steps (DCIndicator_new (Fin (1 / 100))) scenario_D ! 3))) = UPTURN"
  "length (steps (DCIndicator_new (Fin (1 / 100))) scenario_D) = 5"
  by (simp_all add: scenario_D_def eval_defs)

lemma scenario_drop_events:
  "emitted_events (DCIndicator_new (Fin (1 / 100))) scenario_drop =
     [\<lparr>ev_type = DOWNTURN, ev_timestamp = 1000000, ev_price = Fin 98,
       tmv_ext = Fin 2, duration = 0, time_adjusted_return = Fin 0\<rparr>]"
  by (simp add: scenario_drop_def eval_defs)

lemma scenario_A_last_step:
  "steps (DCIndicator_new (Fin (1 / 100))) scenario_A ! 4 =
     (\<lparr>theta = Fin (1 / 100), current_trend = 0, extreme_price = Fin 103,
       extreme_timestamp = 3000000, last_dc_price = Fin 100, last_dc_timestamp = 0,
       last_dc_event = DCEvent_default\<rparr>,
      \<lparr>ev_type = DOWNTURN, ev_timestamp = 4000000, ev_price = Fin (203 / 2),
       tmv_ext = Fin (150 / 103), duration = 3000000,
       time_adjusted_return = Fin (500 / 103)\<rparr>,
      \<lparr>theta = Fin (1 / 100), current_trend = - 1, extreme_price = Fin (203 / 2),
       extreme_timestamp = 4000000, last_dc_price = Fin 103, last_dc_timestamp = 3000000,
       last_dc_event =
         \<lparr>ev_type = DOWNTURN, ev_timestamp = 4000000, ev_price = Fin (203 / 2),
          tmv_ext = Fin (150 / 103), duration = 3000000,
          time_adjusted_return = Fin (500 / 103)\<rparr>\<rparr>)"
  by (simp add: scenario_A_def eval_defs)

lemma scenario_A_length: "length (steps (DCIndicator_new (Fin (1 / 100))) scenario_A) = 5"
  by (simp add: scenario_A_def)

lemma seeded_at_100_fields:
  "theta seeded_at_100 = Fin (1 / 100)" "extreme_price seeded_at_100 = Fin 100"
  "current_trend seeded_at_100 = 0"
  by (simp_all add: seeded_at_100_def tick_def DCIndicator_new_def processDataPoint_def)


section \<open>Facts about doubles\<close>



lemma std_max_ge_1: "dle (Fin 1) (std_max (Fin 1) q)"
  by (cases q) (auto simp: std_max_def)


text \<open>Subtracting an earlier non-negative timestamp does not wrap around.\<close>

lemma sint_diff_nonneg:
  fixes a b :: int64
  assumes "0 \<le> sint a" "sint a \<le> sint b"
  shows "sint (b - a) = sint b - sint a"
proof -
  have "sint b < 2 ^ 63" using sint_lt[of b] by simp
  with assms have "- (2 ^ 63) \<le> sint b - sint a" "sint b - sint a < 2 ^ 63" by simp_all
  then have "signed_take_bit 63 (sint b - sint a) = sint b - sint a"
    by (simp add: signed_take_bit_int_eq_self)
  then show ?thesis by (simp add: sint_word_diff)
qed


section \<open>One step of the detector\<close>

lemma theta_update_extreme [simp]: "theta (update_extreme s dp) = theta s"
  by (simp add: update_extreme_def)

lemma trend_update_extreme [simp]: "current_trend (update_extreme s dp) = current_trend s"
  by (simp add: update_extreme_def)

lemma last_dc_timestamp_update_extreme [simp]:
  "last_dc_timestamp (update_extreme s dp) = last_dc_timestamp s"
  by (simp add: update_extreme_def)


lemma extreme_timestamp_update_extreme:
  "extreme_timestamp (update_extreme s dp) = extreme_timestamp s
   \<or> extreme_timestamp (update_extreme s dp) = timestamp dp"
  by (simp add: update_extreme_def)



lemma theta_processDataPoint [simp]: "theta (snd (processDataPoint s dp)) = theta s"
  by (simp add: processDataPoint_def update_extreme_def Let_def)

lemma theta_final_state [simp]: "theta (final_state s dps) = theta s"
  by (induction dps arbitrary: s) simp_all

text \<open>The returned event is the default one, or the one built after a detection.\<close>

lemma event_cases:
  "fst (processDataPoint s dp) = DCEvent_default
   \<or> (\<not> isnan (extreme_price s) \<and> dc_detected s dp
      \<and> fst (processDataPoint s dp) = make_event s dp)"
  by (simp add: processDataPoint_def Let_def)

lemma ev_type_default [simp]: "ev_type DCEvent_default = NONE"
  by (simp add: DCEvent_default_def)

lemma ev_type_make_event [simp]: "ev_type (make_event s dp) = next_event_type s"
  by (simp add: make_event_def next_event_type_def Let_def)

lemma next_event_type_not_NONE [simp]: "next_event_type s \<noteq> NONE"
  by (simp add: next_event_type_def)

lemma ev_type_step:
  "ev_type (fst (processDataPoint s dp)) = NONE
   \<or> ev_type (fst (processDataPoint s dp)) = next_event_type s"
  using event_cases[of s dp] by auto

lemma trend_after_step:
  "next_event_type (snd (processDataPoint s dp)) =
     (if ev_type (fst (processDataPoint s dp)) = NONE then next_event_type s
      else if next_event_type s = DOWNTURN then UPTURN else DOWNTURN)"
  by (simp add: processDataPoint_def next_event_type_def make_event_def Let_def)




text \<open>With a positive threshold the tick that sets a new extreme cannot also be a turn.\<close>

lemma not_detected_at_extreme:
  assumes "0 < t"
  shows "\<not> isDownwardDC (Fin t) p p" "\<not> isUpwardDC (Fin t) p p"
  using assms by (cases p; simp add: isDownwardDC_def isUpwardDC_def dsub_def)+

lemma detected_no_update:
  assumes "dc_detected s dp" "theta s = Fin t" "0 < t"
  shows "update_extreme s dp = s"
proof (rule ccontr)
  assume "update_extreme s dp \<noteq> s"
  then have "extreme_price (update_extreme s dp) = price dp"
    by (auto simp: update_extreme_def split: if_splits)
  with assms not_detected_at_extreme[OF \<open>0 < t\<close>, of "price dp"] show False
    by (simp add: dc_detected_def split: if_splits)
qed


section \<open>Runs of the detector\<close>

lemma steps_elem:
  "(pre, e, post) \<in> set (steps s dps) \<Longrightarrow>
     theta pre = theta s
     \<and> (\<exists>dp \<in> set dps. e = fst (processDataPoint pre dp)
           \<and> post = snd (processDataPoint pre dp))"
proof (induction dps arbitrary: s)
  case Nil
  then show ?case by simp
next
  case (Cons d dps)
  from Cons.prems
  have "(pre = s \<and> e = fst (processDataPoint s d) \<and> post = snd (processDataPoint s d))
        \<or> (pre, e, post) \<in> set (steps (snd (processDataPoint s d)) dps)"
    by (cases "processDataPoint s d") auto
  then show ?case
  proof
    assume "pre = s \<and> e = fst (processDataPoint s d) \<and> post = snd (processDataPoint s d)"
    then show ?thesis by simp
  next
    assume "(pre, e, post) \<in> set (steps (snd (processDataPoint s d)) dps)"
    from Cons.IH[OF this] show ?thesis by auto
  qed
qed


lemma emitted_events_Nil [simp]: "emitted_events s [] = []"
  by (simp add: emitted_events_def returned_events_def)

lemma emitted_events_Cons:
  "emitted_events s (dp # dps) =
     (if ev_type (fst (processDataPoint s dp)) \<noteq> NONE then [fst (processDataPoint s dp)] else [])
       @ emitted_events (snd (processDataPoint s dp)) dps"
  by (simp add: emitted_events_def returned_events_def)

lemma reset_eq_new: "reset s = DCIndicator_new (theta s)"
  by (simp add: reset_def DCIndicator_new_def)


section \<open>Properties of the detector\<close>

subsection \<open>Total-move extent on scenario A\<close>

text \<open>
  C1. The property: every emitted event carries
  \<open>tmv_ext = |extreme_price - previous_extreme_price| / (previous_extreme_price * theta)\<close>,
  which on scenario A with \<open>theta = 0.01\<close> is \<open>(103 - 100) / (100 * 0.01) = 3\<close>.
  \<^verbatim>\<open>processDataPoint\<close> calls \<^verbatim>\<open>calculateTMV(data_point.price, extreme_price_)\<close>, so the value
  it stores is \<open>|price - extreme_price| / (extreme_price * theta)\<close>: on scenario A the one
  downturn event carries \<open>|101.5 - 103| / (103 * 0.01) = 150 / 103\<close>, not 3.
\<close>

theorem scenario_A_tmv_ext:
  "map ev_type (emitted_events (DCIndicator_new (Fin (1 / 100))) scenario_A) = [DOWNTURN]
   \<and> map tmv_ext (emitted_events (DCIndicator_new (Fin (1 / 100))) scenario_A)
       = [Fin (150 / 103)]
   \<and> Fin (150 / 103) \<noteq> Fin 3"
  by (simp add: scenario_A_events)


subsection \<open>Time-adjusted return is never negative, so no sell order\<close>










subsection \<open>NaN and infinite prices\<close>

text \<open>
  C3 as stated (a tick with a NaN or infinite price returns \<open>NONE\<close> and leaves the state
  unchanged) fails: \<^verbatim>\<open>processDataPoint\<close> has no finiteness check. On a detector seeded at
  100, a tick with price \<open>-\<infinity>\<close> is a retracement of at least \<open>theta\<close>: a downturn is
  emitted and the running extreme becomes \<open>-\<infinity>\<close>.
\<close>

theorem infinite_tick_counterexample:
  "\<not> isfinite (price \<lparr>timestamp = 1000000, price = NInf, volume = Fin 0\<rparr>)
   \<and> ev_type (fst (processDataPoint seeded_at_100
        \<lparr>timestamp = 1000000, price = NInf, volume = Fin 0\<rparr>)) = DOWNTURN
   \<and> extreme_price (snd (processDataPoint seeded_at_100
        \<lparr>timestamp = 1000000, price = NInf, volume = Fin 0\<rparr>)) = NInf
   \<and> extreme_price seeded_at_100 = Fin 100"
  by (simp add: seeded_at_100_def tick_def DCIndicator_new_def processDataPoint_def
      dc_detected_def update_extreme_def make_event_def isDownwardDC_def dsub_def Let_def)

text \<open>
  C3, amended. What the code does for NaN: once the running extreme is set (not NaN),
  a tick whose price is NaN fails every comparison, so \<^verbatim>\<open>processDataPoint\<close> returns the
  default event (type \<open>NONE\<close>) and leaves the whole detector unchanged, for any threshold.
\<close>

theorem nan_tick_ignored:
  assumes "\<not> isnan (extreme_price s)" "price dp = NaN"
  shows "processDataPoint s dp = (DCEvent_default, s)"
proof -
  have upd: "update_extreme s dp = s"
    using assms by (cases "extreme_price s") (simp_all add: update_extreme_def)
  have "\<not> dc_detected s dp"
    using assms
    by (cases "extreme_price s"; cases "theta s")
       (simp_all add: dc_detected_def upd isDownwardDC_def isUpwardDC_def dsub_def)
  with assms upd show ?thesis by (simp add: processDataPoint_def)
qed

theorem nan_tick_ignored_witness:
  "\<not> isnan (extreme_price seeded_at_100)
   \<and> price \<lparr>timestamp = 5, price = NaN, volume = Fin 0\<rparr> = NaN
   \<and> processDataPoint seeded_at_100 \<lparr>timestamp = 5, price = NaN, volume = Fin 0\<rparr>
       = (DCEvent_default, seeded_at_100)"
proof -
  have a: "\<not> isnan (extreme_price seeded_at_100)"
    by (simp add: seeded_at_100_fields)
  have b: "price \<lparr>timestamp = 5, price = NaN, volume = Fin 0\<rparr> = NaN" by simp
  from nan_tick_ignored[OF a b] a b show ?thesis by simp
qed


subsection \<open>Durations\<close>

lemma timestamps_ordered_step:
  assumes "timestamps_ordered b s" "b \<le> sint (timestamp dp)" "0 \<le> sint (timestamp dp)"
  shows "timestamps_ordered (sint (timestamp dp)) (snd (processDataPoint s dp))"
proof (cases "isnan (extreme_price s)")
  case True
  with assms show ?thesis by (simp add: processDataPoint_def timestamps_ordered_def)
next
  case False
  with assms(1) have o: "0 \<le> sint (last_dc_timestamp s)"
    "sint (last_dc_timestamp s) \<le> sint (extreme_timestamp s)" "sint (extreme_timestamp s) \<le> b"
    by (simp_all add: timestamps_ordered_def)
  from extreme_timestamp_update_extreme[of s dp] o assms(2,3)
  have u: "sint (last_dc_timestamp s) \<le> sint (extreme_timestamp (update_extreme s dp))"
    "sint (extreme_timestamp (update_extreme s dp)) \<le> sint (timestamp dp)"
    by auto
  with o False show ?thesis
    by (simp add: processDataPoint_def timestamps_ordered_def Let_def)
qed

lemma duration_step:
  assumes "timestamps_ordered b s" "b \<le> sint (timestamp dp)" "theta s = Fin t" "0 < t"
    "ev_type (fst (processDataPoint s dp)) \<noteq> NONE"
  shows "duration (fst (processDataPoint s dp)) = extreme_timestamp s - last_dc_timestamp s
         \<and> 0 \<le> sint (duration (fst (processDataPoint s dp)))"
proof -
  from event_cases[of s dp] assms(5)
  have a: "\<not> isnan (extreme_price s)" "dc_detected s dp"
    "fst (processDataPoint s dp) = make_event s dp" by auto
  from detected_no_update[OF a(2) assms(3,4)] a(3)
  have d: "duration (fst (processDataPoint s dp)) = extreme_timestamp s - last_dc_timestamp s"
    by (simp add: make_event_def Let_def calculateDuration_def)
  from a(1) assms(1) have "0 \<le> sint (last_dc_timestamp s)"
    "sint (last_dc_timestamp s) \<le> sint (extreme_timestamp s)"
    by (simp_all add: timestamps_ordered_def)
  with sint_diff_nonneg[OF this] d show ?thesis by simp
qed

lemma steps_timestamps_ordered:
  assumes "timestamps_ordered b s"
    "sorted_wrt (\<lambda>a c. sint (timestamp a) \<le> sint (timestamp c)) dps"
    "\<forall>dp \<in> set dps. b \<le> sint (timestamp dp) \<and> 0 \<le> sint (timestamp dp)"
    "(pre, e, post) \<in> set (steps s dps)"
  shows "\<exists>b' dp. timestamps_ordered b' pre \<and> b' \<le> sint (timestamp dp)
           \<and> e = fst (processDataPoint pre dp)"
  using assms
proof (induction dps arbitrary: s b)
  case Nil
  then show ?case by simp
next
  case (Cons d dps)
  from Cons.prems(4)
  have "(pre = s \<and> e = fst (processDataPoint s d))
        \<or> (pre, e, post) \<in> set (steps (snd (processDataPoint s d)) dps)"
    by (cases "processDataPoint s d") auto
  then show ?case
  proof
    assume "pre = s \<and> e = fst (processDataPoint s d)"
    with Cons.prems(1,3) show ?thesis by auto
  next
    assume st: "(pre, e, post) \<in> set (steps (snd (processDataPoint s d)) dps)"
    have 1: "timestamps_ordered (sint (timestamp d)) (snd (processDataPoint s d))"
    proof (rule timestamps_ordered_step)
      show "timestamps_ordered b s" by fact
      show "b \<le> sint (timestamp d)" using Cons.prems(3) by simp
      show "0 \<le> sint (timestamp d)" using Cons.prems(3) by simp
    qed
    from Cons.prems(2) have 2: "sorted_wrt (\<lambda>a c. sint (timestamp a) \<le> sint (timestamp c)) dps"
      by simp
    from Cons.prems(2,3)
    have 3: "\<forall>dp \<in> set dps. sint (timestamp d) \<le> sint (timestamp dp) \<and> 0 \<le> sint (timestamp dp)"
      by simp
    from Cons.IH[OF 1 2 3 st] show ?thesis .
  qed
qed

text \<open>
  C6 as stated (the duration of every emitted event is strictly positive when timestamps
  do not decrease) fails: when the seed tick is still the running extreme at the first
  turn, the extreme's timestamp and the previous-extreme timestamp are both the seed's, and
  the duration is 0. Here the timestamps even increase strictly.
\<close>

theorem zero_duration_counterexample:
  "sorted_wrt (\<lambda>a c. sint (timestamp a) \<le> sint (timestamp c)) scenario_drop
   \<and> map ev_type (emitted_events (DCIndicator_new (Fin (1 / 100))) scenario_drop) = [DOWNTURN]
   \<and> map duration (emitted_events (DCIndicator_new (Fin (1 / 100))) scenario_drop) = [0]"
  by (simp add: scenario_drop_events) (simp add: scenario_drop_def tick_def)

text \<open>
  C6, amended. For a fresh detector with threshold \<open>t > 0\<close> and a tick sequence whose
  timestamps are non-negative and non-decreasing, the duration of every emitted event
  equals the extreme's timestamp minus the previous-extreme timestamp (as the detector
  holds them when the tick arrives) and is non-negative. (\<^verbatim>\<open>calculateTimeAdjustedReturn\<close>
  guards the case \<open>duration \<le> 0\<close>.)
\<close>

theorem duration_nonnegative:
  assumes "0 < t"
    "sorted_wrt (\<lambda>a c. sint (timestamp a) \<le> sint (timestamp c)) dps"
    "\<forall>dp \<in> set dps. 0 \<le> sint (timestamp dp)"
  shows "\<forall>(pre, e, post) \<in> set (steps (DCIndicator_new (Fin t)) dps).
           ev_type e \<noteq> NONE \<longrightarrow>
             duration e = extreme_timestamp pre - last_dc_timestamp pre
             \<and> 0 \<le> sint (duration e)"
proof -
  have "duration e = extreme_timestamp pre - last_dc_timestamp pre \<and> 0 \<le> sint (duration e)"
    if st: "(pre, e, post) \<in> set (steps (DCIndicator_new (Fin t)) dps)" and ne: "ev_type e \<noteq> NONE"
    for pre e post
  proof -
    have 1: "timestamps_ordered 0 (DCIndicator_new (Fin t))"
      by (simp add: timestamps_ordered_def DCIndicator_new_def)
    from assms(3) have 3: "\<forall>dp \<in> set dps. 0 \<le> sint (timestamp dp) \<and> 0 \<le> sint (timestamp dp)"
      by simp
    from steps_timestamps_ordered[OF 1 assms(2) 3 st] obtain b' dp where
      b: "timestamps_ordered b' pre" "b' \<le> sint (timestamp dp)" "e = fst (processDataPoint pre dp)"
      by blast
    from steps_elem[OF st] have "theta pre = Fin t" by (simp add: DCIndicator_new_def)
    moreover from ne b(3) have "ev_type (fst (processDataPoint pre dp)) \<noteq> NONE" by simp
    ultimately show ?thesis
      unfolding b(3) by (rule duration_step[OF b(1,2) _ assms(1)])
  qed
  then show ?thesis by blast
qed

theorem duration_nonnegative_witness:
  "(0 :: real) < 1 / 100
   \<and> sorted_wrt (\<lambda>a c. sint (timestamp a) \<le> sint (timestamp c)) scenario_A
   \<and> list_all (\<lambda>dp. 0 \<le> sint (timestamp dp)) scenario_A
   \<and> ev_type (fst (snd (steps (DCIndicator_new (Fin (1 / 100))) scenario_A ! 4))) = DOWNTURN
   \<and> duration (fst (snd (steps (DCIndicator_new (Fin (1 / 100))) scenario_A ! 4)))
       = extreme_timestamp (fst (steps (DCIndicator_new (Fin (1 / 100))) scenario_A ! 4))
         - last_dc_timestamp (fst (steps (DCIndicator_new (Fin (1 / 100))) scenario_A ! 4))
   \<and> sint (duration (fst (snd (steps (DCIndicator_new (Fin (1 / 100))) scenario_A ! 4))))
       = 3000000"
proof -
  have h1: "(0 :: real) < 1 / 100" by simp
  have h2: "sorted_wrt (\<lambda>a c. sint (timestamp a) \<le> sint (timestamp c)) scenario_A"
    by (simp add: scenario_A_def tick_def)
  have h3: "\<forall>dp \<in> set scenario_A. 0 \<le> sint (timestamp dp)"
    by (simp add: scenario_A_def tick_def)
  have mem: "steps (DCIndicator_new (Fin (1 / 100))) scenario_A ! 4
               \<in> set (steps (DCIndicator_new (Fin (1 / 100))) scenario_A)"
    by (rule nth_mem) (simp add: scenario_A_length)
  from duration_nonnegative[OF h1 h2 h3] mem h1 h2 h3 show ?thesis
    by (simp add: scenario_A_last_step list_all_iff)
qed


subsection \<open>Reset\<close>

text \<open>
  C9. Processing a tick sequence on a fresh detector, calling \<^verbatim>\<open>reset()\<close> and processing
  the same sequence again returns the same sequence of events as the first pass (and
  hence emits the same events): \<^verbatim>\<open>reset()\<close> restores the constructor's state and keeps
  the threshold.
\<close>

theorem reset_replay:
  "returned_events (reset (final_state (DCIndicator_new th) dps)) dps
     = returned_events (DCIndicator_new th) dps
   \<and> emitted_events (reset (final_state (DCIndicator_new th) dps)) dps
     = emitted_events (DCIndicator_new th) dps"
proof -
  have "theta (DCIndicator_new th) = th" by (simp add: DCIndicator_new_def)
  then have "reset (final_state (DCIndicator_new th) dps) = DCIndicator_new th"
    by (simp add: reset_eq_new)
  then show ?thesis by simp
qed


subsection \<open>Alternation of event kinds\<close>

lemma emitted_types_alternate:
  "distinct_adj (map ev_type (emitted_events s dps))
   \<and> (emitted_events s dps \<noteq> [] \<longrightarrow> ev_type (hd (emitted_events s dps)) = next_event_type s)"
proof (induction dps arbitrary: s)
  case Nil
  show ?case by simp
next
  case (Cons dp dps)
  let ?e = "fst (processDataPoint s dp)" and ?s' = "snd (processDataPoint s dp)"
  note IH = Cons.IH[of ?s']
  show ?case
  proof (cases "ev_type ?e = NONE")
    case True
    then have "emitted_events s (dp # dps) = emitted_events ?s' dps"
      by (simp add: emitted_events_Cons)
    moreover from True have "next_event_type ?s' = next_event_type s"
      by (simp add: trend_after_step)
    ultimately show ?thesis using IH by simp
  next
    case False
    then have ev: "emitted_events s (dp # dps) = ?e # emitted_events ?s' dps"
      by (simp add: emitted_events_Cons)
    from False ev_type_step[of s dp] have ty: "ev_type ?e = next_event_type s" by simp
    from False have "next_event_type ?s' \<noteq> next_event_type s"
      by (simp add: trend_after_step)
    with IH ty have "distinct_adj (ev_type ?e # map ev_type (emitted_events ?s' dps))"
      by (cases "emitted_events ?s' dps") (auto simp: distinct_adj_Cons)
    with ev ty show ?thesis by simp
  qed
qed

text \<open>
  C10. In every run of the detector, from any state and on any tick sequence, no two
  consecutive emitted events have the same kind: a downturn is returned only while
  \<open>current_trend \<ge> 0\<close> and leaves the trend at -1, an upturn only while
  \<open>current_trend < 0\<close> and leaves it at 1.
\<close>

theorem events_alternate:
  "distinct_adj (map ev_type (emitted_events s dps))
   \<and> (\<forall>(pre, e, post) \<in> set (steps s dps).
        (ev_type e = DOWNTURN \<longrightarrow> 0 \<le> current_trend pre \<and> current_trend post = - 1)
      \<and> (ev_type e = UPTURN \<longrightarrow> current_trend pre < 0 \<and> current_trend post = 1))"
proof -
  have "(ev_type e = DOWNTURN \<longrightarrow> 0 \<le> current_trend pre \<and> current_trend post = - 1)
      \<and> (ev_type e = UPTURN \<longrightarrow> current_trend pre < 0 \<and> current_trend post = 1)"
    if "(pre, e, post) \<in> set (steps s dps)" for pre e post
  proof -
    from steps_elem[OF that] obtain dp where
      e: "e = fst (processDataPoint pre dp)" and post: "post = snd (processDataPoint pre dp)"
      by blast
    show ?thesis unfolding e post
      by (simp add: processDataPoint_def make_event_def Let_def DCEvent_default_def)
  qed
  with emitted_types_alternate[of s dps] show ?thesis by blast
qed

text \<open>Scenario D emits downturn, upturn, downturn; its third and fourth ticks are turns.\<close>

theorem events_alternate_witness:
  "map ev_type (emitted_events (DCIndicator_new (Fin (1 / 100))) scenario_D)
     = [DOWNTURN, UPTURN, DOWNTURN]
   \<and> distinct_adj (map ev_type (emitted_events (DCIndicator_new (Fin (1 / 100))) scenario_D))
   \<and> ev_type (fst (snd (steps (DCIndicator_new (Fin (1 / 100))) scenario_D ! 2))) = DOWNTURN
   \<and> 0 \<le> current_trend (fst (steps (DCIndicator_new (Fin (1 / 100))) scenario_D ! 2))
   \<and> current_trend (snd (snd (steps (DCIndicator_new (Fin (1 / 100))) scenario_D ! 2))) = - 1
   \<and> ev_type (fst (snd (steps (DCIndicator_new (Fin (1 / 100))) scenario_D ! 3))) = UPTURN
   \<and> current_trend (fst (steps (DCIndicator_new (Fin (1 / 100))) scenario_D ! 3)) < 0
   \<and> current_trend (snd (snd (steps (DCIndicator_new (Fin (1 / 100))) scenario_D ! 3))) = 1"
proof -
  let ?st = "steps (DCIndicator_new (Fin (1 / 100))) scenario_D"
  have m2: "?st ! 2 \<in> set ?st" by (rule nth_mem) (simp add: scenario_D_steps)
  have m3: "?st ! 3 \<in> set ?st" by (rule nth_mem) (simp add: scenario_D_steps)
  from events_alternate[of "DCIndicator_new (Fin (1 / 100))" scenario_D] m2 m3
    scenario_D_steps scenario_D_types
  show ?thesis by (auto simp: split_beta)
qed


section \<open>Properties of the performance accumulator\<close>
















section \<open>Rounding to binary64\<close>

lemma rne_of_int [simp]: "rne (of_int n) = n"
  by (simp add: rne_def)

lemma rne_close: "\<bar>of_int (rne q) - q\<bar> \<le> 1 / 2"
  unfolding rne_def Let_def by (auto; linarith)

lemma rne_ge_floor: "\<lfloor>q\<rfloor> \<le> rne q"
  by (simp add: rne_def Let_def)


lemma powr2_succ: "(2::real) powr (real_of_int k + 1) = 2 powi (k + 1)"
  using powr_real_of_int'[of 2 "k + 1"] by simp

lemma floor_log2_eq:
  assumes "0 < a" "2 powi E \<le> a" "a < 2 powi (E + 1)"
  shows "\<lfloor>log 2 a\<rfloor> = E"
  using assms by (simp add: floor_log_eq_powr_iff powr_real_of_int' powr2_succ)

lemma floor_log2_bounds:
  assumes "0 < a"
  shows "2 powi \<lfloor>log 2 a\<rfloor> \<le> a" "a < 2 powi (\<lfloor>log 2 a\<rfloor> + 1)"
  using floor_log_eq_powr_iff[of a 2 "\<lfloor>log 2 a\<rfloor>"] assms
  by (simp_all add: powr_real_of_int' powr2_succ)

lemma pow2_le_iff [simp]: "(2::real) powi m \<le> 2 powi n \<longleftrightarrow> m \<le> n"
  using powr_le_cancel_iff[of 2 "real_of_int m" "real_of_int n"]
  by (simp add: powr_real_of_int')

lemma pow2_less_iff [simp]: "(2::real) powi m < 2 powi n \<longleftrightarrow> m < n"
  using powr_less_cancel_iff[of 2 "real_of_int m" "real_of_int n"]
  by (simp add: powr_real_of_int')

lemma pow2_pos [simp]: "0 < (2::real) powi n"
  by (simp add: zero_less_power_int)

lemma pow2_not_le [simp]: "\<not> (2::real) powi n \<le> 0"
  by (simp add: not_le)

lemma pow2_add: "(2::real) powi (m + n) = 2 powi m * 2 powi n"
  by (simp add: power_int_add)

lemma pow2_diff: "(2::real) powi (m - n) = 2 powi m / 2 powi n"
  by (simp add: power_int_diff)

lemma round64_pos:
  "0 < x \<Longrightarrow> round64 x =
     (let ex = quantum x; y = of_int (rne (x / 2 powi ex)) * 2 powi ex
      in if 2 ^ 1024 \<le> y then PInf else Fin y)"
  by (simp add: round64_def Let_def)


lemma round64_zero [simp]: "round64 0 = Fin 0"
  by (simp add: round64_def)

text \<open>The exponent of a positive number: below its binade's upper end, above its lower end.\<close>

lemma quantum_bounds:
  assumes "0 < a"
  shows "a < 2 powi (quantum a + 53)" "- 1074 \<le> quantum a"
    "2 powi (- 1022) \<le> a \<Longrightarrow> 2 powi (quantum a + 52) \<le> a"
    "a < 2 powi (- 1022) \<Longrightarrow> quantum a = - 1074"
proof -
  define E where "E = \<lfloor>log 2 a\<rfloor>"
  have q: "quantum a = max (E - 52) (- 1074)" by (simp add: quantum_def E_def)
  from floor_log2_bounds[OF assms] have b: "2 powi E \<le> a" "a < 2 powi (E + 1)"
    by (simp_all add: E_def)
  have "E + 1 \<le> quantum a + 53" unfolding q by linarith
  then have "(2::real) powi (E + 1) \<le> 2 powi (quantum a + 53)" by (simp only: pow2_le_iff)
  with b(2) show "a < 2 powi (quantum a + 53)" by (rule less_le_trans)
  show "- 1074 \<le> quantum a" unfolding q by linarith
  show "2 powi (quantum a + 52) \<le> a" if "2 powi (- 1022) \<le> a"
  proof -
    from that b(2) have "(2::real) powi (- 1022) < 2 powi (E + 1)" by (rule le_less_trans)
    then have "(- 1022 :: int) < E + 1" by (simp only: pow2_less_iff)
    then have "quantum a + 52 = E" unfolding q by linarith
    with b(1) show ?thesis by simp
  qed
  show "quantum a = - 1074" if "a < 2 powi (- 1022)"
  proof -
    from b(1) that have "(2::real) powi E < 2 powi (- 1022)" by (rule le_less_trans)
    then have "E < - 1022" by (simp only: pow2_less_iff)
    then show ?thesis unfolding q by linarith
  qed
qed

text \<open>A binary64 value rounds to itself.\<close>

lemma round64_exact:
  assumes "is_binary64 x"
  shows "round64 x = Fin x"
proof (cases "x = 0")
  case True
  then show ?thesis by simp
next
  case False
  from assms obtain m e where
    x: "x = of_int m * 2 powi e" and m: "\<bar>m\<bar> < 2 ^ 53" and e: "- 1074 \<le> e" "e \<le> 971"
    by (auto simp: is_binary64_def)
  define a where "a = \<bar>x\<bar>"
  define ex where "ex = quantum a"
  define M :: real where "M = of_int \<bar>m\<bar>"
  have a: "a = M * 2 powi e" by (simp add: a_def M_def x abs_mult)
  from False have apos: "0 < a" by (simp add: a_def)
  have "M < 2 ^ 53" unfolding M_def using m
    by (metis of_int_less_iff of_int_numeral of_int_power)
  then have "a < 2 ^ 53 * 2 powi e" unfolding a by (simp add: mult_strict_right_mono)
  also have "(2::real) ^ 53 * 2 powi e = 2 powi (53 + e)"
    by (simp only: pow2_add) simp
  finally have alt: "a < 2 powi (53 + e)" .
  have exle: "ex \<le> e"
  proof (cases "2 powi (- 1022) \<le> a")
    case True
    from quantum_bounds(3)[OF apos True] alt have "(2::real) powi (ex + 52) < 2 powi (53 + e)"
      unfolding ex_def by (rule le_less_trans)
    then have "ex + 52 < 53 + e" by (simp only: pow2_less_iff)
    then show ?thesis by linarith
  next
    case False
    then have "ex = - 1074" using quantum_bounds(4)[OF apos] by (simp add: ex_def)
    with e show ?thesis by simp
  qed
  define k where "k = nat (e - ex)"
  have ek: "e = ex + int k" using exle by (simp add: k_def)
  have "(2::real) powi e = 2 powi (ex + int k)" using ek by simp
  then have pe: "(2::real) powi e = 2 powi ex * 2 ^ k"
    by (simp only: pow2_add power_int_of_nat)
  have "a / 2 powi ex = M * 2 ^ k" unfolding a pe by simp
  also have "\<dots> = of_int (\<bar>m\<bar> * 2 ^ k)" by (simp add: M_def)
  finally have q: "a / 2 powi ex = of_int (\<bar>m\<bar> * 2 ^ k)" .
  have "of_int (rne (a / 2 powi ex)) * 2 powi ex = (a / 2 powi ex) * 2 powi ex"
    unfolding q rne_of_int ..
  then have y: "of_int (rne (a / 2 powi ex)) * 2 powi ex = a" by simp
  have "a < 2 ^ 1024"
  proof -
    from e have "53 + e \<le> 1024" by linarith
    then have "(2::real) powi (53 + e) \<le> 2 powi 1024" by (simp only: pow2_le_iff)
    with alt have "a < 2 powi 1024" by (rule less_le_trans)
    then show ?thesis by simp
  qed
  then have no: "\<not> 2 ^ 1024 \<le> a" by simp
  have "sgn x * a = x" by (simp add: a_def sgn_mult_abs)
  with y no False show ?thesis
    unfolding round64_def Let_def a_def[symmetric] ex_def[symmetric] by simp
qed

text \<open>
  The difference of two binary64 values within a factor of two of each other is a
  binary64 value (Sterbenz): the subtraction is exact.
\<close>

lemma scaled_nonneg_iff: "0 \<le> of_int k * (2::real) powi e \<longleftrightarrow> 0 \<le> k"
  by (auto simp: zero_le_mult_iff)

lemma scaled_le_iff: "of_int k * (2::real) powi e \<le> of_int m * 2 powi e \<longleftrightarrow> k \<le> m"
  using pow2_pos[of e] by (simp add: mult_le_cancel_right not_less le_less)

lemma sterbenz:
  assumes "is_binary64 x" "is_binary64 y" "y \<le> x" "x \<le> 2 * y"
  shows "is_binary64 (x - y)"
proof -
  from assms(1) obtain mx ex where
    x: "x = of_int mx * 2 powi ex" and mx: "\<bar>mx\<bar> < 2 ^ 53" and ex: "- 1074 \<le> ex" "ex \<le> 971"
    by (auto simp: is_binary64_def)
  from assms(2) obtain my ey where
    y: "y = of_int my * 2 powi ey" and my: "\<bar>my\<bar> < 2 ^ 53" and ey: "- 1074 \<le> ey" "ey \<le> 971"
    by (auto simp: is_binary64_def)
  from assms(3,4) have d: "0 \<le> x - y" "x - y \<le> y" "x - y \<le> x" by simp_all
  show ?thesis
  proof (cases "ex \<le> ey")
    case True
    define j where "j = nat (ey - ex)"
    have "ey = ex + int j" using True by (simp add: j_def)
    then have "(2::real) powi ey = 2 powi (ex + int j)" by simp
    then have pe: "(2::real) powi ey = 2 powi ex * 2 ^ j"
      by (simp only: pow2_add power_int_of_nat)
    define k where "k = mx - my * 2 ^ j"
    have eq: "x - y = of_int k * 2 powi ex"
      unfolding x y pe k_def by (simp add: algebra_simps)
    from d(1) have "0 \<le> of_int k * (2::real) powi ex" unfolding eq .
    then have k0: "0 \<le> k" by (simp only: scaled_nonneg_iff)
    have "of_int k * (2::real) powi ex = x - y" by (rule eq[symmetric])
    also have "\<dots> \<le> x" by (rule d(3))
    also have "x = of_int mx * 2 powi ex" by (rule x)
    finally have "of_int k * (2::real) powi ex \<le> of_int mx * 2 powi ex" .
    then have "k \<le> mx" by (simp only: scaled_le_iff)
    with k0 mx have "\<bar>k\<bar> < 2 ^ 53" by simp
    with eq ex show ?thesis by (auto simp: is_binary64_def)
  next
    case False
    define j where "j = nat (ex - ey)"
    have "ex = ey + int j" using False by (simp add: j_def)
    then have "(2::real) powi ex = 2 powi (ey + int j)" by simp
    then have pe: "(2::real) powi ex = 2 powi ey * 2 ^ j"
      by (simp only: pow2_add power_int_of_nat)
    define k where "k = mx * 2 ^ j - my"
    have eq: "x - y = of_int k * 2 powi ey"
      unfolding x y pe k_def by (simp add: algebra_simps)
    from d(1) have "0 \<le> of_int k * (2::real) powi ey" unfolding eq .
    then have k0: "0 \<le> k" by (simp only: scaled_nonneg_iff)
    have "of_int k * (2::real) powi ey = x - y" by (rule eq[symmetric])
    also have "\<dots> \<le> y" by (rule d(2))
    also have "y = of_int my * 2 powi ey" by (rule y)
    finally have "of_int k * (2::real) powi ey \<le> of_int my * 2 powi ey" .
    then have "k \<le> my" by (simp only: scaled_le_iff)
    with k0 my have "\<bar>k\<bar> < 2 ^ 53" by simp
    with eq ey show ?thesis by (auto simp: is_binary64_def)
  qed
qed

text \<open>Rounding a number in the normal range moves it by at most one part in \<open>2^53\<close>.\<close>

lemma round64_near:
  assumes "2 powi (- 1022) \<le> x"
  shows "\<exists>y. \<bar>y - x\<bar> \<le> 2 powi (- 53) * x \<and> 0 < y
           \<and> round64 x = (if 2 ^ 1024 \<le> y then PInf else Fin y)"
proof -
  have xpos: "0 < x" using assms pow2_pos[of "- 1022"] by linarith
  define ex where "ex = quantum x"
  define p where "p = (2::real) powi ex"
  have ppos: "0 < p" by (simp add: p_def)
  define n where "n = rne (x / p)"
  define y where "y = of_int n * p"
  have lo: "2 powi (ex + 52) \<le> x" unfolding ex_def by (rule quantum_bounds(3)[OF xpos assms])
  have "(2::real) powi (ex + 52) = p * 2 powi 52" by (simp only: pow2_add p_def)
  with lo have lo': "p * 2 powi 52 \<le> x" by simp
  have "\<bar>of_int n - x / p\<bar> \<le> 1 / 2" unfolding n_def by (rule rne_close)
  then have "\<bar>of_int n - x / p\<bar> * p \<le> 1 / 2 * p" using ppos by (simp add: mult_right_mono)
  moreover have "(of_int n - x / p) * p = y - x"
    using ppos by (simp add: y_def left_diff_distrib)
  then have "\<bar>of_int n - x / p\<bar> * p = \<bar>y - x\<bar>"
    using ppos abs_mult[of "of_int n - x / p" p] by simp
  ultimately have close: "\<bar>y - x\<bar> \<le> p / 2" by simp
  have "p / 2 = 2 powi (- 53) * (p * 2 powi 52)" by simp
  also have "\<dots> \<le> 2 powi (- 53) * x" using lo' by (simp only: mult_le_cancel_left_pos pow2_pos)
  finally have rel: "p / 2 \<le> 2 powi (- 53) * x" .
  have "p * 2 powi 52 \<le> x" by (rule lo')
  then have "p < x" using ppos by (simp add: less_le_trans[of p "p * 4503599627370496" x])
  with close have ypos: "0 < y" by linarith
  have "round64 x = (if 2 ^ 1024 \<le> y then PInf else Fin y)"
    using xpos by (simp add: round64_pos Let_def y_def n_def p_def ex_def)
  with close rel ypos show ?thesis by (intro exI[of _ y]) auto
qed


lemma round64_ge_one:
  assumes "1 \<le> x"
  shows "dle (Fin 1) (round64 x)"
proof -
  have xpos: "0 < x" using assms by simp
  have "(2::real) powi (- 1022) \<le> 2 powi 0" by (simp only: pow2_le_iff)
  with assms have nrm: "2 powi (- 1022) \<le> x" by simp
  define ex where "ex = quantum x"
  define p where "p = (2::real) powi ex"
  have ppos: "0 < p" by (simp add: p_def)
  define n where "n = rne (x / p)"
  have lo: "2 powi (ex + 52) \<le> x" unfolding ex_def by (rule quantum_bounds(3)[OF xpos nrm])
  have "x < 2 powi (ex + 53)" unfolding ex_def by (rule quantum_bounds(1)[OF xpos])
  with assms have "(2::real) powi 0 < 2 powi (ex + 53)" by simp
  then have "0 < ex + 53" by (simp only: pow2_less_iff)
  then have "0 \<le> ex + 52" by linarith
  then have one: "(1::real) \<le> 2 powi (ex + 52)"
    using pow2_le_iff[of 0 "ex + 52"] by simp
  have pe: "(2::real) powi (ex + 52) = p * 2 ^ 52" by (simp only: pow2_add p_def) simp
  with lo have "p * 2 ^ 52 \<le> x" by simp
  then have "2 ^ 52 \<le> x / p" using ppos by (simp add: pos_le_divide_eq mult.commute)
  then have "2 ^ 52 \<le> \<lfloor>x / p\<rfloor>" using le_floor_iff[of "2 ^ 52" "x / p"] by simp
  with rne_ge_floor[of "x / p"] have "2 ^ 52 \<le> n" unfolding n_def by linarith
  then have "(2::real) ^ 52 \<le> of_int n" by (metis of_int_le_iff of_int_numeral of_int_power)
  then have "2 ^ 52 * p \<le> of_int n * p" using ppos by (simp add: mult_right_mono)
  moreover have "1 \<le> 2 ^ 52 * p" using one pe by (simp add: mult.commute)
  ultimately have "1 \<le> of_int n * p" by (rule order_trans[rotated])
  then show ?thesis
    unfolding round64_pos[OF xpos] Let_def ex_def[symmetric] p_def[symmetric] n_def[symmetric]
    by simp
qed

text \<open>Evaluating the rounding of a given positive number in the normal range.\<close>

lemma round64_eval:
  assumes "2 powi (ex + 52) \<le> x" "x < 2 powi (ex + 53)" "- 1074 \<le> ex"
    "rne (x / 2 powi ex) = n" "of_int n * (2::real) powi ex < 2 ^ 1024"
  shows "round64 x = Fin (of_int n * 2 powi ex)"
proof -
  have xpos: "0 < x" using assms(1) pow2_pos[of "ex + 52"] by linarith
  have "x < 2 powi (ex + 52 + 1)" using assms(2) by (simp add: add.commute add.left_commute)
  from floor_log2_eq[OF xpos assms(1) this] assms(3) have "quantum x = ex"
    by (simp add: quantum_def)
  with assms(4,5) show ?thesis by (simp add: round64_pos[OF xpos] Let_def)
qed

lemma round64_not_nan [simp]: "round64 z \<noteq> NaN"
  by (simp add: round64_def Let_def)




lemma tick_simps: "price (tick ts p) = Fin p" "timestamp (tick ts p) = ts"
  by (simp_all add: tick_def)

lemma fsub_Fin: "fsub (Fin a) (Fin b) = round64 (a - b)"
  by (simp add: fsub_def)

lemma fdiv_Fin: "b \<noteq> 0 \<Longrightarrow> fdiv (Fin a) (Fin b) = round64 (a / b)"
  by simp

lemma is_binary64I:
  "x = of_int m * 2 powi e \<Longrightarrow> \<bar>m\<bar> < 2 ^ 53 \<Longrightarrow> - 1074 \<le> e \<Longrightarrow> e \<le> 971 \<Longrightarrow> is_binary64 x"
  by (auto simp: is_binary64_def)

lemma small_binary64:
  "is_binary64 (1 / 4)" "is_binary64 128" "is_binary64 96" "is_binary64 120" "is_binary64 32"
  "is_binary64 100" "is_binary64 1" "is_binary64 (1 / 2)" "is_binary64 50" "is_binary64 200"
  by (rule is_binary64I[of _ 1 "- 2"], simp_all)
     (rule is_binary64I[of _ 128 0] is_binary64I[of _ 96 0] is_binary64I[of _ 120 0]
           is_binary64I[of _ 32 0] is_binary64I[of _ 100 0] is_binary64I[of _ 1 0]
           is_binary64I[of _ 1 "- 1"] is_binary64I[of _ 50 0] is_binary64I[of _ 200 0], simp_all)+

lemma small_roundings:
  "round64 100 = Fin 100" "round64 (1 / 2) = Fin (1 / 2)" "round64 50 = Fin 50"
  by (rule round64_exact, rule small_binary64)+


section \<open>Properties in binary64 arithmetic\<close>

subsection \<open>A move of exactly the threshold\<close>

lemma c8_binary64:
  "is_binary64 c8_extreme" "is_binary64 c8_price" "is_binary64 (3 / 4)"
proof -
  show "is_binary64 c8_extreme"
    by (rule is_binary64I[of _ 6244578887697966 "- 45"]) (simp_all add: c8_extreme_def)
  show "is_binary64 c8_price"
    by (rule is_binary64I[of _ 6244578887697966 "- 47"]) (simp_all add: c8_price_def)
  show "is_binary64 (3 / 4)"
    by (rule is_binary64I[of _ 3 "- 2"]) simp_all
qed

lemma c8_facts:
  "0 < c8_extreme" "c8_price = c8_extreme * (1 - 3 / 4)" "\<not> c8_extreme < c8_price"
  by (simp_all add: c8_extreme_def c8_price_def)

lemma c8_roundings:
  "round64 (c8_extreme - c8_price) = Fin (4683434165773474 * 2 powi (- 45))"
  "round64 (4683434165773474 * 2 powi (- 45) / c8_extreme) = Fin (6755399441055743 * 2 powi (- 53))"
proof -
  show "round64 (c8_extreme - c8_price) = Fin (4683434165773474 * 2 powi (- 45))"
    using round64_eval[of "- 45" "c8_extreme - c8_price" 4683434165773474]
    by (simp add: rne_def c8_extreme_def c8_price_def)
  show "round64 (4683434165773474 * 2 powi (- 45) / c8_extreme) = Fin (6755399441055743 * 2 powi (- 53))"
    using round64_eval[of "- 53" "4683434165773474 * 2 powi (- 45) / c8_extreme" 6755399441055743]
    by (simp add: rne_def c8_extreme_def)
qed

text \<open>
  C8 as stated (a price that retraces from the running extreme by exactly \<open>theta\<close> emits an
  event) fails in binary64 arithmetic. With threshold 0.75 and the detector seeded at
  \<open>e = 177.48160666138705\<close>, the price \<open>e / 4\<close> is a binary64 value and equals
  \<open>e * (1 - 0.75)\<close> exactly; the detector computes \<open>e - e / 4\<close>, a tie that rounds to
  even, downwards, and the quotient by \<open>e\<close> comes out as 0.7499999999999999, below the
  threshold: the returned event has type none.
\<close>

theorem exact_threshold_missed:
  "theta c8_state = Fin (3 / 4) \<and> extreme_price c8_state = Fin c8_extreme \<and> 0 < c8_extreme
   \<and> 0 \<le> current_trend c8_state
   \<and> is_binary64 c8_extreme \<and> is_binary64 c8_price \<and> c8_price = c8_extreme * (1 - 3 / 4)
   \<and> ev_type (fst (processDataPoint_b64 c8_state (tick 1000000 c8_price))) = NONE"
proof -
  have st: "theta c8_state = Fin (3 / 4)" "extreme_price c8_state = Fin c8_extreme"
    "current_trend c8_state = 0"
    by (simp_all add: c8_state_def processDataPoint_b64_def DCIndicator_new_def tick_simps)
  have upd: "update_extreme c8_state (tick 1000000 c8_price) = c8_state"
    using c8_facts(3) by (simp add: update_extreme_def st tick_simps)
  have low: "\<not> dle (Fin (3 / 4)) (Fin (6755399441055743 * 2 powi (- 53)))" by simp
  have ne: "c8_extreme \<noteq> 0" using c8_facts(1) by simp
  have "fdiv (fsub (Fin c8_extreme) (Fin c8_price)) (Fin c8_extreme)
          = Fin (6755399441055743 * 2 powi (- 53))"
    unfolding fsub_Fin c8_roundings(1) by (simp only: fdiv_Fin[OF ne] c8_roundings(2))
  moreover have "dc_detected_b64 c8_state (tick 1000000 c8_price)
          = dle (Fin (3 / 4)) (fdiv (fsub (Fin c8_extreme) (Fin c8_price)) (Fin c8_extreme))"
    by (simp add: dc_detected_b64_def upd st isDownwardDC_b64_def tick_simps)
  ultimately have "\<not> dc_detected_b64 c8_state (tick 1000000 c8_price)"
    using low by (simp only:) simp
  then have "ev_type (fst (processDataPoint_b64 c8_state (tick 1000000 c8_price))) = NONE"
    by (simp add: processDataPoint_b64_def st DCEvent_default_def)
  with st c8_facts c8_binary64 show ?thesis by simp
qed

text \<open>
  C8, amended. For a detector whose threshold \<open>t > 0\<close> and positive running extreme \<open>e\<close>
  are binary64 values: while the trend is up or unknown (\<open>current_trend \<ge> 0\<close>) and
  \<open>t \<le> 1/2\<close>, a tick whose price is the binary64 value \<open>e * (1 - t)\<close> returns a downturn
  event; while the trend is down and \<open>t \<le> 1\<close>, a tick whose price is the binary64 value
  \<open>e * (1 + t)\<close> returns an upturn event. (Within these bounds the subtraction is exact,
  and the quotient \<open>e * t / e\<close> rounds to \<open>t\<close> itself.)
\<close>

theorem representable_threshold_emits:
  assumes "theta s = Fin t" "0 < t" "extreme_price s = Fin e" "0 < e"
    "is_binary64 t" "is_binary64 e"
  shows "(0 \<le> current_trend s \<longrightarrow> t \<le> 1 / 2 \<longrightarrow> price dp = Fin (e * (1 - t)) \<longrightarrow>
            is_binary64 (e * (1 - t)) \<longrightarrow>
            ev_type (fst (processDataPoint_b64 s dp)) = DOWNTURN)
       \<and> (current_trend s < 0 \<longrightarrow> t \<le> 1 \<longrightarrow> price dp' = Fin (e * (1 + t)) \<longrightarrow>
            is_binary64 (e * (1 + t)) \<longrightarrow>
            ev_type (fst (processDataPoint_b64 s dp')) = UPTURN)"
proof (intro conjI impI)
  have ne: "e \<noteq> 0" using assms(4) by simp
  have rt: "round64 t = Fin t" by (rule round64_exact[OF assms(5)])
  {
    assume tr: "0 \<le> current_trend s" and half: "t \<le> 1 / 2"
      and p: "price dp = Fin (e * (1 - t))" and rp: "is_binary64 (e * (1 - t))"
    define q where "q = e * (1 - t)"
    have et: "e * t \<le> e / 2" using half assms(4) by (simp add: mult_left_le_imp_le field_simps)
    have le: "q \<le> e" using assms(2,4) by (simp add: q_def algebra_simps)
    have "e \<le> 2 * q" using et by (simp add: q_def algebra_simps)
    from sterbenz[OF assms(6) _ le this] rp have "is_binary64 (e - q)" by (simp add: q_def)
    then have r1: "round64 (e - q) = Fin (e - q)" by (rule round64_exact)
    have "(e - q) / e = t" using ne by (simp add: q_def field_simps)
    then have r2: "fdiv (fsub (Fin e) (Fin q)) (Fin e) = Fin t"
      unfolding fsub_Fin r1 by (simp only: fdiv_Fin[OF ne] rt)
    have upd: "update_extreme s dp = s"
      using le tr assms(3) p by (simp add: update_extreme_def q_def)
    have "dc_detected_b64 s dp"
      using tr assms(1,3) p r2 by (simp add: dc_detected_b64_def upd isDownwardDC_b64_def q_def)
    then show "ev_type (fst (processDataPoint_b64 s dp)) = DOWNTURN"
      using assms(3) tr by (simp add: processDataPoint_b64_def make_event_b64_def Let_def)
  }
  {
    assume tr: "current_trend s < 0" and one: "t \<le> 1"
      and p: "price dp' = Fin (e * (1 + t))" and rp: "is_binary64 (e * (1 + t))"
    define q where "q = e * (1 + t)"
    have et: "e * t \<le> e" using one assms(4) by simp
    have le: "e \<le> q" using assms(2,4) by (simp add: q_def algebra_simps)
    have "q \<le> 2 * e" using et by (simp add: q_def algebra_simps)
    from sterbenz[OF _ assms(6) le this] rp have "is_binary64 (q - e)" by (simp add: q_def)
    then have r1: "round64 (q - e) = Fin (q - e)" by (rule round64_exact)
    have "(q - e) / e = t" using ne by (simp add: q_def field_simps)
    then have r2: "fdiv (fsub (Fin q) (Fin e)) (Fin e) = Fin t"
      unfolding fsub_Fin r1 by (simp only: fdiv_Fin[OF ne] rt)
    have upd: "update_extreme s dp' = s"
      using le tr assms(3) p by (simp add: update_extreme_def q_def)
    have "dc_detected_b64 s dp'"
      using tr assms(1,3) p r2 by (simp add: dc_detected_b64_def upd isUpwardDC_b64_def q_def)
    then show "ev_type (fst (processDataPoint_b64 s dp')) = UPTURN"
      using assms(3) tr by (simp add: processDataPoint_b64_def make_event_b64_def Let_def)
  }
qed

lemma up_at_128_fields:
  "theta up_at_128 = Fin (1 / 4)" "extreme_price up_at_128 = Fin 128"
  "current_trend up_at_128 = 0"
  by (simp_all add: up_at_128_def processDataPoint_b64_def DCIndicator_new_def tick_simps)

lemma down_at_96_fields:
  "theta down_at_96 = Fin (1 / 4)" "extreme_price down_at_96 = Fin 96"
  "current_trend down_at_96 = - 1"
proof -
  have r: "round64 32 = Fin 32" "round64 (1 / 4) = Fin (1 / 4)"
    by (rule round64_exact, rule small_binary64)+
  have det: "dc_detected_b64 up_at_128 (tick 1000000 96)"
    by (simp add: dc_detected_b64_def update_extreme_def up_at_128_fields tick_simps
        isDownwardDC_b64_def fsub_Fin r)
  show "theta down_at_96 = Fin (1 / 4)" "extreme_price down_at_96 = Fin 96"
    "current_trend down_at_96 = - 1"
    using det
    by (simp_all add: down_at_96_def processDataPoint_b64_def Let_def update_extreme_def
        up_at_128_fields tick_simps)
qed

text \<open>
  With threshold 0.25: seeded at 128, a tick at 96 is a downturn; in the down trend with
  extreme 96 that follows, a tick at 120 is an upturn.
\<close>

theorem representable_threshold_emits_witness:
  "theta up_at_128 = Fin (1 / 4) \<and> (0 :: real) < 1 / 4 \<and> (1 / 4 :: real) \<le> 1 / 2
   \<and> extreme_price up_at_128 = Fin 128 \<and> 0 \<le> current_trend up_at_128
   \<and> is_binary64 (1 / 4) \<and> is_binary64 128 \<and> is_binary64 96 \<and> is_binary64 120
   \<and> ev_type (fst (processDataPoint_b64 up_at_128 (tick 1000000 96))) = DOWNTURN
   \<and> theta down_at_96 = Fin (1 / 4) \<and> extreme_price down_at_96 = Fin 96
   \<and> current_trend down_at_96 < 0
   \<and> ev_type (fst (processDataPoint_b64 down_at_96 (tick 2000000 120))) = UPTURN"
proof -
  have p1: "price (tick 1000000 96) = Fin (128 * (1 - 1 / 4))" by (simp add: tick_simps)
  have p2: "price (tick 2000000 120) = Fin (96 * (1 + 1 / 4))" by (simp add: tick_simps)
  have b1: "is_binary64 (128 * (1 - 1 / 4))" using small_binary64(3) by simp
  have b2: "is_binary64 (96 * (1 + 1 / 4))" using small_binary64(4) by simp
  from representable_threshold_emits[OF up_at_128_fields(1) _ up_at_128_fields(2) _
      small_binary64(1,2), of "tick 1000000 96" "tick 1000000 96"]
    representable_threshold_emits[OF down_at_96_fields(1) _ down_at_96_fields(2) _
      small_binary64(1,3), of "tick 2000000 120" "tick 2000000 120"]
    p1 p2 b1 b2 small_binary64
  show ?thesis by (simp add: up_at_128_fields down_at_96_fields)
qed


subsection \<open>Extent of about one threshold\<close>











lemma theta_processDataPoint_b64 [simp]: "theta (snd (processDataPoint_b64 s dp)) = theta s"
  by (simp add: processDataPoint_b64_def update_extreme_def Let_def)










subsection \<open>Order quantity\<close>

lemma c4_binary64: "is_binary64 20000" "is_binary64 c4_price"
proof -
  show "is_binary64 20000"
    by (rule is_binary64I[of _ 20000 0]) simp_all
  show "is_binary64 c4_price"
    by (rule is_binary64I[of _ 4565524122246840 "- 45"]) (simp_all add: c4_price_def)
qed

lemma c4_rounding: "round64 (10000 / c4_price) = Fin c4_quantity"
  using round64_eval[of "- 46" "10000 / c4_price" 5422991998895192]
  by (simp add: rne_def c4_price_def c4_quantity_def)

lemma c4_facts: "0 < c4_price" "c4_price \<le> 10000" "1 < c4_quantity" "c4_quantity < 100"
  "10000 < c4_quantity * c4_price"
  by (simp_all add: c4_price_def c4_quantity_def)

lemma c4_notional:
  "fmul (Fin c4_quantity) (Fin c4_price) = Fin (5497558138880001 * 2 powi (- 39))"
  using round64_eval[of "- 39" "c4_quantity * c4_price" 5497558138880001]
  by (simp add: rne_def c4_price_def c4_quantity_def)

text \<open>
  C4 as stated (for every price \<open>> 0\<close> the quantity satisfies both \<open>quantity * price \<le> 10000\<close>
  and \<open>quantity \<ge> 1\<close>) fails twice over. The floor of 1 is applied after the cap, so at a
  price of 20 000 the quantity is 1 and the notional is 20 000. And below 10 000 the
  quotient \<open>10000 / price\<close> is rounded: at the price 129.76 the quantity is
  77.06535141800248, whose product with the price exceeds 10 000, exactly and also when
  the product is computed in binary64 (10000.000000000002).
\<close>

theorem notional_ceiling_counterexample:
  "is_binary64 20000
   \<and> calculateOrderQuantity_b64 StrategyEngine_new BUY (Fin 20000) = Fin 1
   \<and> (0 :: real) < 20000 \<and> \<not> (1 * 20000 \<le> (10000 :: real))
   \<and> is_binary64 c4_price
   \<and> calculateOrderQuantity_b64 StrategyEngine_new BUY (Fin c4_price) = Fin c4_quantity
   \<and> 0 < c4_price \<and> \<not> (c4_quantity * c4_price \<le> 10000)
   \<and> \<not> dle (fmul (Fin c4_quantity) (Fin c4_price)) (Fin 10000)"
proof -
  have a: "calculateOrderQuantity_b64 StrategyEngine_new BUY (Fin 20000) = Fin 1"
    by (simp add: calculateOrderQuantity_b64_def StrategyEngine_new_def std_min_def std_max_def
        Let_def small_roundings)
  have ne: "c4_price \<noteq> 0" using c4_facts(1) by simp
  have b: "calculateOrderQuantity_b64 StrategyEngine_new BUY (Fin c4_price) = Fin c4_quantity"
    using c4_facts
    by (simp add: calculateOrderQuantity_b64_def StrategyEngine_new_def std_min_def std_max_def
        Let_def small_roundings fdiv_Fin[OF ne] c4_rounding del: fdiv.simps)
  have c: "\<not> dle (fmul (Fin c4_quantity) (Fin c4_price)) (Fin 10000)"
    unfolding c4_notional by simp
  from a b c c4_facts c4_binary64 show ?thesis by simp
qed

lemma round64_quotient:
  assumes "2 powi (- 1000) \<le> p" "p \<le> 10000"
  shows "\<exists>y. round64 (10000 / p) = Fin y \<and> 1 \<le> y \<and> y * p \<le> 10000 * (1 + 2 powi (- 53))"
proof -
  have ppos: "0 < p" using assms(1) pow2_pos[of "- 1000"] by linarith
  define z where "z = 10000 / p"
  have z1: "1 \<le> z" using assms(2) ppos by (simp add: z_def)
  have "(2::real) powi (- 1022) \<le> 2 powi 0" by (simp only: pow2_le_iff)
  with z1 have nrm: "2 powi (- 1022) \<le> z" by simp
  from round64_near[OF nrm] obtain y where
    y: "\<bar>y - z\<bar> \<le> 2 powi (- 53) * z" "0 < y"
       "round64 z = (if 2 ^ 1024 \<le> y then PInf else Fin y)"
    by blast
  have "z * 2 powi (- 1000) \<le> z * p" using assms(1) z1 by (simp add: mult_left_mono)
  also have "z * p = 10000" using ppos by (simp add: z_def)
  finally have "z * 2 powi (- 1000) \<le> 10000" .
  moreover have "z = z * 2 powi (- 1000) * 2 powi 1000"
    by (simp add: mult.assoc flip: pow2_add)
  ultimately have "z \<le> 10000 * 2 powi 1000"
    by (metis mult_right_mono pow2_pos less_imp_le)
  also have "\<dots> \<le> 2 powi 14 * 2 powi 1000" by simp
  also have "\<dots> = 2 powi 1014" by (simp flip: pow2_add)
  finally have zle: "z \<le> 2 powi 1014" .
  have "y - z \<le> \<bar>y - z\<bar>" by simp
  from this y(1) have "y - z \<le> 2 powi (- 53) * z" by (rule order_trans)
  then have "y \<le> z + 2 powi (- 53) * z" by linarith
  then have yle: "y \<le> z * (1 + 2 powi (- 53))" by (simp only: distrib_left mult_1_right mult.commute)
  have "z * (1 + 2 powi (- 53)) \<le> z * 2" using z1 by simp
  also have "\<dots> \<le> 2 powi 1014 * 2" using zle by simp
  also have "\<dots> = 2 powi 1015" by (simp flip: pow2_add power_int_add_1)
  also have "\<dots> < 2 powi 1024" by (simp only: pow2_less_iff)
  finally have "z * (1 + 2 powi (- 53)) < 2 ^ 1024" by simp
  with yle have no: "\<not> 2 ^ 1024 \<le> y" by linarith
  with y(3) have r: "round64 z = Fin y" by simp
  from round64_ge_one[OF z1] r have y1: "1 \<le> y" by simp
  from yle ppos have "y * p \<le> z * (1 + 2 powi (- 53)) * p" by (simp add: mult_right_mono)
  also have "\<dots> = 10000 * (1 + 2 powi (- 53))" using ppos by (simp add: z_def)
  finally have "y * p \<le> 10000 * (1 + 2 powi (- 53))" .
  with r y1 show ?thesis unfolding z_def by blast
qed

text \<open>
  C4, amended. For every engine setting, signal type and price the quantity is at least 1;
  for every price \<open>p\<close> with \<open>2^-1000 \<le> p \<le> 10000\<close> the quantity \<open>q\<close> is finite and satisfies
  \<open>q * p \<le> 10000 * (1 + 2^-53)\<close>: the notional stays under the ceiling up to the rounding
  of one quotient.
\<close>

theorem order_quantity_bounds_b64:
  "dle (Fin 1) (calculateOrderQuantity_b64 se sg pr)
   \<and> (2 powi (- 1000) \<le> p \<longrightarrow> p \<le> 10000 \<longrightarrow>
        (\<exists>q. calculateOrderQuantity_b64 se sg (Fin p) = Fin q \<and> 1 \<le> q
              \<and> q * p \<le> 10000 * (1 + 2 powi (- 53))))"
proof
  show "dle (Fin 1) (calculateOrderQuantity_b64 se sg pr)"
    by (simp add: calculateOrderQuantity_b64_def Let_def std_max_ge_1)
next
  show "2 powi (- 1000) \<le> p \<longrightarrow> p \<le> 10000 \<longrightarrow>
        (\<exists>q. calculateOrderQuantity_b64 se sg (Fin p) = Fin q \<and> 1 \<le> q
              \<and> q * p \<le> 10000 * (1 + 2 powi (- 53)))"
  proof (intro impI)
    assume lo: "2 powi (- 1000) \<le> p" and hi: "p \<le> 10000"
    have ppos: "0 < p" using lo pow2_pos[of "- 1000"] by linarith
    from round64_quotient[OF lo hi] obtain y where
      y: "round64 (10000 / p) = Fin y" "1 \<le> y" "y * p \<le> 10000 * (1 + 2 powi (- 53))"
      by blast
    define q1 where "q1 =
      (if hmm_enabled se
       then fmul (fmul (Fin 100) (leverage_factor se)) (getVolatilityAdjustedLeverage se)
       else fmul (Fin 100) (leverage_factor se))"
    have eq: "calculateOrderQuantity_b64 se sg (Fin p) = std_max (Fin 1) (std_min q1 (Fin y))"
      using ppos y(1) by (simp add: calculateOrderQuantity_b64_def Let_def q1_def)
    have "\<exists>q. std_max (Fin 1) (std_min q1 (Fin y)) = Fin q \<and> 1 \<le> q \<and> q \<le> y"
      using y(2) by (cases q1) (auto simp: std_max_def std_min_def)
    then obtain q where q: "std_max (Fin 1) (std_min q1 (Fin y)) = Fin q" "1 \<le> q" "q \<le> y"
      by blast
    from q(3) ppos have "q * p \<le> y * p" by (simp add: mult_right_mono)
    with y(3) have "q * p \<le> 10000 * (1 + 2 powi (- 53))" by linarith
    with eq q show "\<exists>q. calculateOrderQuantity_b64 se sg (Fin p) = Fin q \<and> 1 \<le> q
              \<and> q * p \<le> 10000 * (1 + 2 powi (- 53))" by auto
  qed
qed

text \<open>At a price of 200 the quantity is 50 and the notional is exactly 10 000.\<close>

theorem order_quantity_bounds_b64_witness:
  "dle (Fin 1) (calculateOrderQuantity_b64 StrategyEngine_new BUY (Fin 200))
   \<and> (2::real) powi (- 1000) \<le> 200 \<and> (200 :: real) \<le> 10000
   \<and> calculateOrderQuantity_b64 StrategyEngine_new BUY (Fin 200) = Fin 50
   \<and> (50 :: real) * 200 \<le> 10000 * (1 + 2 powi (- 53))"
proof -
  have q: "calculateOrderQuantity_b64 StrategyEngine_new BUY (Fin 200) = Fin 50"
    by (simp add: calculateOrderQuantity_b64_def StrategyEngine_new_def std_min_def std_max_def
        Let_def small_roundings)
  from order_quantity_bounds_b64[of StrategyEngine_new BUY "Fin 200" 200] q
  show ?thesis by simp
qed

end
